theory Spec2Isabelle
  imports Complex_Main "HOL-Library.Multiset" "HOL-Library.Word"
begin

section \<open>Data model\<close>

text \<open>
  A JavaScript string is a sequence of UTF-16 code units: a list of 16-bit words. The
  text of a literal is written \<open>js ''...''\<close>, the code units of its characters.
\<close>

type_synonym jsstring = "16 word list"

definition js :: "string \<Rightarrow> jsstring" where
  "js s = map of_char s"

text \<open>
  The types of \<^verbatim>\<open>types.ts\<close>. A JavaScript number is modelled as an exact rational, so
  the rounding of IEEE doubles inside a sum or a quotient is not part of the model.
  \<^verbatim>\<open>keywordType\<close> and \<^verbatim>\<open>searchIntent\<close> are declared \<^verbatim>\<open>KeywordType | string\<close> and
  \<^verbatim>\<open>SearchIntent | string\<close>: any string is a value.
\<close>

record KeywordEntry =
  keyword :: jsstring
  keywordType :: jsstring
  searchIntent :: jsstring
  priorityScore :: rat
  importance :: jsstring

text \<open>
  A value stored in one of the counting objects of the aggregator. \<open>Count n\<close> is the
  number \<open>n\<close>. \<open>Text b n\<close> is the string that JavaScript's \<^verbatim>\<open>+\<close> builds when its left
  operand is not a number: the text of the built-in \<open>b\<close> inherited from
  \<^verbatim>\<open>Object.prototype\<close>, followed by \<open>n\<close> characters \<^verbatim>\<open>1\<close>.
\<close>

datatype tally = Count nat | Text jsstring nat

record DistEntry =
  name :: jsstring
  val :: tally

record GenerationStats =
  totalKeywords :: nat
  avgPriority :: int
  intentDistribution :: "DistEntry list"
  typeDistribution :: "DistEntry list"

section \<open>Plain objects used as dictionaries\<close>

text \<open>
  \<^verbatim>\<open>const intentCounts: Record<string, number> = {}\<close> is an ordinary object: its own
  properties are kept in creation order, a read of a missing own property falls through
  to \<^verbatim>\<open>Object.prototype\<close>, and a write either updates the own property, or runs the
  \<^verbatim>\<open>__proto__\<close> setter, or creates a new own property.
\<close>

type_synonym jsobject = "(jsstring \<times> tally) list"

definition Object_prototype_keys :: "jsstring list" where
  "Object_prototype_keys =
     [js ''constructor'', js ''__defineGetter__'', js ''__defineSetter__'', js ''hasOwnProperty'',
      js ''__lookupGetter__'', js ''__lookupSetter__'', js ''isPrototypeOf'',
      js ''propertyIsEnumerable'', js ''toString'', js ''valueOf'', js ''__proto__'',
      js ''toLocaleString'']"

datatype lookup = Undefined | Own tally | Inherited jsstring

definition js_get :: "jsobject \<Rightarrow> jsstring \<Rightarrow> lookup" where
  "js_get obj k =
     (case map_of obj k of
        Some v \<Rightarrow> Own v
      | None \<Rightarrow> if k \<in> set Object_prototype_keys then Inherited k else Undefined)"

text \<open>
  \<^verbatim>\<open>(x || 0) + 1\<close>. \<^verbatim>\<open>undefined\<close> and \<^verbatim>\<open>0\<close> are falsy and give \<^verbatim>\<open>0 + 1\<close>; another number
  gives its successor; a function or object inherited from the prototype is truthy and
  \<^verbatim>\<open>+\<close> concatenates its text with \<^verbatim>\<open>"1"\<close>; a string built that way is truthy again.
\<close>

fun or_zero_plus_one :: "lookup \<Rightarrow> tally" where
  "or_zero_plus_one Undefined = Count 1"
| "or_zero_plus_one (Own (Count n)) = Count (n + 1)"
| "or_zero_plus_one (Own (Text b n)) = Text b (n + 1)"
| "or_zero_plus_one (Inherited b) = Text b 1"

text \<open>
  \<^verbatim>\<open>obj[k] = v\<close>. An own property is overwritten in place. Otherwise the key
  \<^verbatim>\<open>__proto__\<close> reaches the accessor of \<^verbatim>\<open>Object.prototype\<close>, whose setter ignores a
  value that is neither an object nor \<^verbatim>\<open>null\<close>; every other key (the inherited methods
  are writable data properties) becomes a new own property, last in creation order.
\<close>

definition js_set :: "jsobject \<Rightarrow> jsstring \<Rightarrow> tally \<Rightarrow> jsobject" where
  "js_set obj k v =
     (if k \<in> fst ` set obj then map (\<lambda>p. if fst p = k then (k, v) else p) obj
      else if k = js ''__proto__'' then obj
      else obj @ [(k, v)])"

definition bump :: "jsobject \<Rightarrow> jsstring \<Rightarrow> jsobject" where
  "bump obj k = js_set obj k (or_zero_plus_one (js_get obj k))"

text \<open>
  \<^verbatim>\<open>Object.entries\<close> lists the own properties: first the keys that are array indices
  (canonical decimal strings of the integers up to \<open>2^32 - 2\<close>) in ascending numeric
  order, then the other string keys in creation order.
\<close>

definition is_digit :: "16 word \<Rightarrow> bool" where
  "is_digit c = (0x30 \<le> c \<and> c \<le> 0x39)"

definition index_value :: "jsstring \<Rightarrow> int" where
  "index_value s = foldl (\<lambda>acc c. 10 * acc + (uint c - 48)) 0 s"

definition is_array_index :: "jsstring \<Rightarrow> bool" where
  "is_array_index s =
     (s \<noteq> [] \<and> list_all is_digit s \<and> (s = js ''0'' \<or> hd s \<noteq> 0x30)
      \<and> index_value s \<le> 4294967294)"

definition Object_entries :: "jsobject \<Rightarrow> (jsstring \<times> tally) list" where
  "Object_entries obj =
     sort_key (index_value \<circ> fst) (filter (is_array_index \<circ> fst) obj)
     @ filter (\<lambda>p. \<not> is_array_index (fst p)) obj"

section \<open>Statistics aggregator (App.tsx, stats)\<close>

fun forEach_count ::
  "KeywordEntry list \<Rightarrow> jsobject \<times> jsobject \<times> rat \<Rightarrow> jsobject \<times> jsobject \<times> rat" where
  "forEach_count [] acc = acc"
| "forEach_count (k # ks) (intentCounts, typeCounts, totalScore) =
     forEach_count ks
       (bump intentCounts (searchIntent k), bump typeCounts (keywordType k),
        totalScore + priorityScore k)"

definition Math_round :: "rat \<Rightarrow> int" where
  "Math_round x = \<lfloor>x + 1 / 2\<rfloor>"

definition to_dist :: "(jsstring \<times> tally) list \<Rightarrow> DistEntry list" where
  "to_dist es = map (\<lambda>(n, v). \<lparr>name = n, val = v\<rparr>) es"

definition stats :: "KeywordEntry list \<Rightarrow> GenerationStats option" where
  "stats kws =
     (if length kws = 0 then None
      else case forEach_count kws ([], [], 0) of
        (intentCounts, typeCounts, totalScore) \<Rightarrow>
          Some \<lparr>totalKeywords = length kws,
                avgPriority = Math_round (totalScore / of_nat (length kws)),
                intentDistribution = to_dist (Object_entries intentCounts),
                typeDistribution = to_dist (Object_entries typeCounts)\<rparr>)"

text \<open>
  The distinct elements of a list in the order of their first occurrence: the order in
  which a pass over the list meets each category for the first time.
\<close>

fun first_seen :: "'a list \<Rightarrow> 'a list" where
  "first_seen [] = []"
| "first_seen (x # xs) = x # filter (\<lambda>y. y \<noteq> x) (first_seen xs)"

section \<open>Results table (KeywordTable.tsx)\<close>

datatype SortField = Keyword | KeywordType | SearchIntent | PriorityScore | Importance

datatype SortDirection = asc | desc

record TableState =
  searchTerm :: jsstring
  sortField :: SortField
  sortDirection :: SortDirection
  filterIntent :: jsstring

definition initial_table :: TableState where
  "initial_table =
     \<lparr>searchTerm = [], sortField = PriorityScore, sortDirection = desc,
      filterIntent = js ''All''\<rparr>"

definition handleSort :: "SortField \<Rightarrow> TableState \<Rightarrow> TableState" where
  "handleSort field st =
     (if field = sortField st
      then st\<lparr>sortDirection := (if sortDirection st = asc then desc else asc)\<rparr>
      else st\<lparr>sortField := field, sortDirection := desc\<rparr>)"

subsection \<open>String built-ins\<close>

text \<open>
  \<^verbatim>\<open>String.prototype.toLowerCase\<close> is defined by the case mappings of the Unicode
  character database, some of which depend on the surrounding characters or change the
  length of the string. It is taken as the parameter \<open>toLowerCase\<close> of the functions
  that call it, a function from strings to strings of which nothing is assumed.
\<close>

fun startsWith :: "jsstring \<Rightarrow> jsstring \<Rightarrow> bool" where
  "startsWith s [] = True"
| "startsWith [] (t # ts) = False"
| "startsWith (c # s) (t # ts) = (c = t \<and> startsWith s ts)"

fun String_includes :: "jsstring \<Rightarrow> jsstring \<Rightarrow> bool" where
  "String_includes [] t = (t = [])"
| "String_includes (c # s) t = (startsWith (c # s) t \<or> String_includes s t)"


subsection \<open>Filter\<close>

definition filteredData ::
  "(jsstring \<Rightarrow> jsstring) \<Rightarrow> KeywordEntry list \<Rightarrow> TableState \<Rightarrow> KeywordEntry list" where
  "filteredData toLowerCase data st =
     filter (\<lambda>item.
       let matchesSearch = String_includes (toLowerCase (keyword item)) (toLowerCase (searchTerm st));
           matchesIntent = (filterIntent st = js ''All'' \<or> searchIntent item = filterIntent st)
       in matchesSearch \<and> matchesIntent) data"

subsection \<open>Sort\<close>





text \<open>
  \<^verbatim>\<open>Array.prototype.sort\<close> with a comparator: the standard requires a stable sort, an
  element \<open>x\<close> going before \<open>y\<close> when the comparator is negative on \<open>(x, y)\<close>. It is
  modelled by a stable insertion sort.
\<close>

fun insert_by :: "('a \<Rightarrow> 'a \<Rightarrow> rat) \<Rightarrow> 'a \<Rightarrow> 'a list \<Rightarrow> 'a list" where
  "insert_by cmp x [] = [x]"
| "insert_by cmp x (y # ys) =
     (if cmp x y \<le> 0 then x # y # ys else y # insert_by cmp x ys)"

definition Array_sort :: "('a \<Rightarrow> 'a \<Rightarrow> rat) \<Rightarrow> 'a list \<Rightarrow> 'a list" where
  "Array_sort cmp xs = foldr (insert_by cmp) xs []"


subsection \<open>CSV export\<close>








section \<open>Generation client (services/geminiService.ts)\<close>

text \<open>
  A thrown value is an object whose \<^verbatim>\<open>message\<close> property is a string or is absent. One
  call of the external service either rejects with such a value or resolves with a
  response whose \<^verbatim>\<open>text\<close> is a string or \<^verbatim>\<open>undefined\<close>. \<^verbatim>\<open>JSON.parse\<close> followed by the
  unchecked cast to \<^verbatim>\<open>KeywordEntry[]\<close> is taken as a parameter: it throws or returns the
  entries.
\<close>

record js_error =
  message :: "jsstring option"

datatype service_result = Rejects js_error | Resolves "jsstring option"

definition generateKeywords ::
  "service_result \<Rightarrow> (jsstring \<Rightarrow> js_error + KeywordEntry list) \<Rightarrow> js_error + KeywordEntry list" where
  "generateKeywords response JSON_parse =
     (case response of
        Rejects err \<Rightarrow> Inl err
      | Resolves text \<Rightarrow>
          (case text of
             None \<Rightarrow> Inl \<lparr>message = Some (js ''No data returned from Gemini.'')\<rparr>
           | Some t \<Rightarrow>
               if t = [] then Inl \<lparr>message = Some (js ''No data returned from Gemini.'')\<rparr>
               else JSON_parse t))"

section \<open>Application shell (App.tsx)\<close>

text \<open>The state variable \<^verbatim>\<open>keywords\<close> of the shell is the field \<open>keywordList\<close>.\<close>

record AppState =
  seedKeyword :: jsstring
  keywordList :: "KeywordEntry list"
  loading :: bool
  error :: "jsstring option"
  hasSearched :: bool

definition initial_app :: AppState where
  "initial_app =
     \<lparr>seedKeyword = [], keywordList = [], loading = False, error = None, hasSearched = False\<rparr>"

text \<open>
  \<^verbatim>\<open>trim\<close> removes white space and line terminators from both ends: tab, line feed,
  vertical tab, form feed, carriage return, space, no-break space, the byte order mark
  U+FEFF, the line and paragraph separators U+2028 and U+2029, and the other space
  separators U+1680, U+2000..U+200A, U+202F, U+205F and U+3000.
\<close>

definition is_space :: "16 word \<Rightarrow> bool" where
  "is_space c =
     (c \<in> {0x09, 0x0A, 0x0B, 0x0C, 0x0D, 0x20, 0xA0, 0x1680, 0x2028, 0x2029, 0x202F, 0x205F,
            0x3000, 0xFEFF}
      \<or> (0x2000 \<le> c \<and> c \<le> 0x200A))"

definition trim :: "jsstring \<Rightarrow> jsstring" where
  "trim s = rev (dropWhile is_space (rev (dropWhile is_space s)))"

definition generic_message :: jsstring where
  "generic_message = js ''Failed to generate keywords. Please try again.''"

text \<open>\<^verbatim>\<open>err.message || "Failed to ..."\<close>: an absent or empty message is falsy.\<close>

definition message_or_generic :: "js_error \<Rightarrow> jsstring" where
  "message_or_generic err =
     (case message err of
        None \<Rightarrow> generic_message
      | Some m \<Rightarrow> if m = [] then generic_message else m)"

text \<open>
  \<^verbatim>\<open>handleGenerate\<close> runs in two parts: the statements before the \<^verbatim>\<open>await\<close>, whose
  state is what the shell shows while the request is pending, and the statements after
  it, once the call has settled.
\<close>

definition handleGenerate_pending :: "AppState \<Rightarrow> AppState" where
  "handleGenerate_pending st =
     (if trim (seedKeyword st) = [] then st
      else st\<lparr>loading := True, error := None, keywordList := [], hasSearched := True\<rparr>)"

definition handleGenerate_settled :: "js_error + KeywordEntry list \<Rightarrow> AppState \<Rightarrow> AppState" where
  "handleGenerate_settled outcome st =
     (case outcome of
        Inr data \<Rightarrow> st\<lparr>keywordList := data\<rparr>
      | Inl err \<Rightarrow> st\<lparr>error := Some (message_or_generic err)\<rparr>)
     \<lparr>loading := False\<rparr>"

definition handleGenerate ::
  "service_result \<Rightarrow> (jsstring \<Rightarrow> js_error + KeywordEntry list) \<Rightarrow> AppState \<Rightarrow> AppState" where
  "handleGenerate response JSON_parse st =
     (if trim (seedKeyword st) = [] then st
      else handleGenerate_settled (generateKeywords response JSON_parse)
             (handleGenerate_pending st))"

subsection \<open>Results section\<close>

text \<open>
  \<^verbatim>\<open>(a, b) => b.value - a.value\<close> as the sort reads it: a string operand converts to
  \<^verbatim>\<open>NaN\<close>, and the sort takes a \<^verbatim>\<open>NaN\<close> result as \<open>+0\<close>. With such a value among numbers
  the comparator is not consistent and the order an engine produces is its own; the
  properties below are stated for distributions whose values are all numbers.
\<close>

definition by_value_desc :: "DistEntry \<Rightarrow> DistEntry \<Rightarrow> rat" where
  "by_value_desc a b =
     (case (val b, val a) of
        (Count m, Count n) \<Rightarrow> of_nat m - of_nat n
      | _ \<Rightarrow> 0)"

text \<open>\<^verbatim>\<open>xs[0]?.name || 'N/A'\<close>\<close>

definition first_name_or_NA :: "DistEntry list \<Rightarrow> jsstring" where
  "first_name_or_NA xs =
     (case xs of
        [] \<Rightarrow> js ''N/A''
      | e # _ \<Rightarrow> if name e = [] then (js ''N/A'') else name e)"

record ResultsView =
  totalCard :: nat
  avgCard :: int
  topIntentCard :: jsstring
  dominantTypeCard :: jsstring
  dashboardStats :: GenerationStats

text \<open>
  Rendering the results section. \<^verbatim>\<open>sort\<close> works on the array it is called on, and
  \<^verbatim>\<open>stats\<close> is one shared object: the function returns the view together with the
  object as the rendering leaves it, and the Dashboard is given that same object.
\<close>

definition render_results :: "GenerationStats \<Rightarrow> ResultsView \<times> GenerationStats" where
  "render_results stats0 =
     (let stats1 = stats0\<lparr>intentDistribution :=
                      Array_sort by_value_desc (intentDistribution stats0)\<rparr>;
          topIntent = first_name_or_NA (intentDistribution stats1);
          stats2 = stats1\<lparr>typeDistribution :=
                      Array_sort by_value_desc (typeDistribution stats1)\<rparr>;
          dominantType = first_name_or_NA (typeDistribution stats2)
      in (\<lparr>totalCard = totalKeywords stats2, avgCard = avgPriority stats2,
           topIntentCard = topIntent, dominantTypeCard = dominantType,
           dashboardStats = stats2\<rparr>, stats2))"

section \<open>The specification's words\<close>

text \<open>
  The lower-case form of the search term is a contiguous part of the lower-case form of
  the keyword.
\<close>

definition contains_lowered :: "(jsstring \<Rightarrow> jsstring) \<Rightarrow> jsstring \<Rightarrow> jsstring \<Rightarrow> bool" where
  "contains_lowered toLowerCase k t = (\<exists>pre suf. toLowerCase k = pre @ toLowerCase t @ suf)"

text \<open>
  An entry passes the filter: its keyword matches the search term in that sense, and its
  intent is the selected one unless the selection is \<^verbatim>\<open>All\<close>.
\<close>

definition passes_filter ::
  "(jsstring \<Rightarrow> jsstring) \<Rightarrow> jsstring \<Rightarrow> jsstring \<Rightarrow> KeywordEntry \<Rightarrow> bool" where
  "passes_filter toLowerCase term intent e =
     (contains_lowered toLowerCase (keyword e) term
      \<and> (intent = js ''All'' \<or> searchIntent e = intent))"

text \<open>
  The search term is contained in the keyword, ignoring letter case, where \<open>f\<close> gives the
  lower-case form of a single code unit: some contiguous part of the keyword agrees with
  the term code unit by code unit up to \<open>f\<close>.
\<close>

definition same_ignoring_case :: "(16 word \<Rightarrow> 16 word) \<Rightarrow> jsstring \<Rightarrow> jsstring \<Rightarrow> bool" where
  "same_ignoring_case f u t = list_all2 (\<lambda>c d. f c = f d) u t"

definition contains_ignoring_case :: "(16 word \<Rightarrow> 16 word) \<Rightarrow> jsstring \<Rightarrow> jsstring \<Rightarrow> bool" where
  "contains_ignoring_case f k t =
     (\<exists>pre u suf. k = pre @ u @ suf \<and> same_ignoring_case f u t)"

definition passes_filter_ignoring_case ::
  "(16 word \<Rightarrow> 16 word) \<Rightarrow> jsstring \<Rightarrow> jsstring \<Rightarrow> KeywordEntry \<Rightarrow> bool" where
  "passes_filter_ignoring_case f term intent e =
     (contains_ignoring_case f (keyword e) term
      \<and> (intent = js ''All'' \<or> searchIntent e = intent))"



text \<open>
  A list of category names as the distribution lists them: the names that are array
  indices first, in ascending numeric order, then the other names in the order given.
\<close>

definition indices_then_rest :: "jsstring list \<Rightarrow> jsstring list" where
  "indices_then_rest cats =
     sort_key index_value (filter is_array_index cats)
     @ filter (\<lambda>c. \<not> is_array_index c) cats"

text \<open>
  The number held by a value of a counting object (a string holds none), whether all
  values of a distribution are numbers, and the sum of its counts.
\<close>

fun count_of :: "tally \<Rightarrow> nat" where
  "count_of (Count n) = n"
| "count_of (Text b n) = 0"

definition is_count :: "tally \<Rightarrow> bool" where
  "is_count v = (case v of Count n \<Rightarrow> True | Text b n \<Rightarrow> False)"

definition numeric :: "DistEntry list \<Rightarrow> bool" where
  "numeric es = list_all (\<lambda>e. is_count (val e)) es"

definition count_sum :: "DistEntry list \<Rightarrow> nat" where
  "count_sum es = sum_list (map (\<lambda>e. count_of (val e)) es)"

section \<open>Example data\<close>

text \<open>
  The value of \<^verbatim>\<open>toLowerCase\<close> on strings of code units below U+0100 and of the Greek
  letters U+0391..U+03A9 and U+03B1..U+03C9, for use at concrete inputs. A capital
  letter goes to its small letter, 32 code units up. The capital sigma U+03A3 goes to
  the final small sigma U+03C2 when a cased letter comes before it and none comes after
  it, case-ignorable characters in between being skipped, and to the small sigma U+03C3
  otherwise.
\<close>

definition is_cased :: "16 word \<Rightarrow> bool" where
  "is_cased c =
     ((0x41 \<le> c \<and> c \<le> 0x5A) \<or> (0x61 \<le> c \<and> c \<le> 0x7A) \<or> c \<in> {0xAA, 0xB5, 0xBA}
      \<or> (0xC0 \<le> c \<and> c \<le> 0xD6) \<or> (0xD8 \<le> c \<and> c \<le> 0xF6) \<or> (0xF8 \<le> c \<and> c \<le> 0xFF)
      \<or> (0x391 \<le> c \<and> c \<le> 0x3A1) \<or> (0x3A3 \<le> c \<and> c \<le> 0x3A9)
      \<or> (0x3B1 \<le> c \<and> c \<le> 0x3C9))"

definition is_case_ignorable :: "16 word \<Rightarrow> bool" where
  "is_case_ignorable c =
     (c \<in> {0x27, 0x2E, 0x3A, 0x5E, 0x60, 0xA8, 0xAD, 0xAF, 0xB4, 0xB7, 0xB8})"

fun cased_letter_next :: "jsstring \<Rightarrow> bool" where
  "cased_letter_next [] = False"
| "cased_letter_next (c # cs) =
     (if is_cased c then True
      else if is_case_ignorable c then cased_letter_next cs
      else False)"

definition lower_unit :: "16 word \<Rightarrow> 16 word" where
  "lower_unit c =
     (if (0x41 \<le> c \<and> c \<le> 0x5A) \<or> (0xC0 \<le> c \<and> c \<le> 0xDE \<and> c \<noteq> 0xD7)
         \<or> (0x391 \<le> c \<and> c \<le> 0x3A1) \<or> (0x3A3 \<le> c \<and> c \<le> 0x3A9)
      then c + 32 else c)"

fun lower_in_context :: "jsstring \<Rightarrow> jsstring \<Rightarrow> jsstring" where
  "lower_in_context before [] = []"
| "lower_in_context before (c # cs) =
     (if c = 0x3A3 \<and> cased_letter_next before \<and> \<not> cased_letter_next cs then 0x3C2
      else lower_unit c)
     # lower_in_context (c # before) cs"

definition lower_sample :: "jsstring \<Rightarrow> jsstring" where
  "lower_sample s = lower_in_context [] s"

text \<open>The Greek keyword of four capital letters, omicron delta omicron sigma.\<close>

definition ex_odos :: KeywordEntry where
  "ex_odos = \<lparr>keyword = [0x39F, 0x394, 0x39F, 0x3A3], keywordType = js ''Short Tail'',
     searchIntent = js ''Informational'', priorityScore = 60, importance = js ''street''\<rparr>"

definition ex_buy :: KeywordEntry where
  "ex_buy = \<lparr>keyword = js ''Buy Coffee'', keywordType = js ''Commercial'',
     searchIntent = js ''Transactional'', priorityScore = 90, importance = js ''high intent''\<rparr>"

definition ex_best :: KeywordEntry where
  "ex_best = \<lparr>keyword = js ''best coffee maker'', keywordType = js ''Long Tail'',
     searchIntent = js ''Commercial'', priorityScore = 70, importance = js ''buyers''\<rparr>"

definition ex_tea :: KeywordEntry where
  "ex_tea = \<lparr>keyword = js ''what is tea'', keywordType = js ''Question'',
     searchIntent = js ''Commercial'', priorityScore = 40, importance = js ''awareness''\<rparr>"


definition ex_entry :: "string \<Rightarrow> string \<Rightarrow> rat \<Rightarrow> KeywordEntry" where
  "ex_entry intent type score =
     \<lparr>keyword = js ''k'', keywordType = js type, searchIntent = js intent,
      priorityScore = score, importance = js ''i''\<rparr>"

section \<open>Properties\<close>

subsection \<open>Application shell\<close>

text \<open>
  C6: for an empty keyword list the aggregator returns no statistics (\<open>None\<close>, the
  source's \<^verbatim>\<open>null\<close>), and only for the empty list: no zero-valued record is built.
\<close>

theorem stats_empty_absent: "(stats kws = None) = (kws = [])"
  by (simp add: stats_def split: prod.splits)

theorem stats_empty_absent_witness:
  "stats [] = None
   \<and> stats [\<lparr>keyword = js ''k'', keywordType = js ''Question'', searchIntent = js ''Informational'',
               priorityScore = 40, importance = js ''i''\<rparr>] \<noteq> None"
  using stats_empty_absent [of "[]"]
    stats_empty_absent [of "[\<lparr>keyword = js ''k'', keywordType = js ''Question'',
      searchIntent = js ''Informational'', priorityScore = 40, importance = js ''i''\<rparr>]"]
  by simp

text \<open>
  C9: a submission whose trimmed seed is empty changes nothing, neither before the
  request nor later; a submission with a non-empty trimmed seed, from any state, has
  emptied the keyword list and cleared the error (and set the loading flag) in the
  state shown while the generation call is pending.
\<close>

theorem submit_guard_and_clear:
  "(trim (seedKeyword st) = [] \<longrightarrow>
      handleGenerate_pending st = st \<and> handleGenerate response JSON_parse st = st)
   \<and> (trim (seedKeyword st) \<noteq> [] \<longrightarrow>
      handleGenerate_pending st
        = st\<lparr>loading := True, error := None, keywordList := [], hasSearched := True\<rparr>
      \<and> keywordList (handleGenerate_pending st) = []
      \<and> error (handleGenerate_pending st) = None
      \<and> loading (handleGenerate_pending st))"
  by (simp add: handleGenerate_pending_def handleGenerate_def)

theorem submit_guard_and_clear_witness:
  "trim (seedKeyword (initial_app\<lparr>seedKeyword := js '' ''\<rparr>)) = []
   \<and> handleGenerate (Resolves None) (\<lambda>t. Inr []) (initial_app\<lparr>seedKeyword := js '' ''\<rparr>)
       = initial_app\<lparr>seedKeyword := js '' ''\<rparr>
   \<and> trim (seedKeyword \<lparr>seedKeyword = js ''coffee'', keywordList = [\<lparr>keyword = js ''k'',
         keywordType = js ''Question'', searchIntent = js ''Informational'', priorityScore = 40,
         importance = js ''i''\<rparr>], loading = False, error = Some (js ''old''), hasSearched = True\<rparr>) \<noteq> []
   \<and> handleGenerate_pending \<lparr>seedKeyword = js ''coffee'', keywordList = [\<lparr>keyword = js ''k'',
         keywordType = js ''Question'', searchIntent = js ''Informational'', priorityScore = 40,
         importance = js ''i''\<rparr>], loading = False, error = Some (js ''old''), hasSearched = True\<rparr>
       = \<lparr>seedKeyword = js ''coffee'', keywordList = [], loading = True, error = None,
          hasSearched = True\<rparr>"
  using submit_guard_and_clear [of "initial_app\<lparr>seedKeyword := js '' ''\<rparr>" "Resolves None" "\<lambda>t. Inr []"]
    submit_guard_and_clear [of "\<lparr>seedKeyword = js ''coffee'', keywordList = [\<lparr>keyword = js ''k'',
         keywordType = js ''Question'', searchIntent = js ''Informational'', priorityScore = 40,
         importance = js ''i''\<rparr>], loading = False, error = Some (js ''old''), hasSearched = True\<rparr>"]
  by (simp add: initial_app_def trim_def is_space_def js_def)

text \<open>
  C5: the generation client fails when the service resolves without a text payload
  (\<^verbatim>\<open>undefined\<close> or the empty string); and whenever the client fails on a submitted seed,
  the shell ends with an error message that is not empty, the generic message when the
  error carries none, an empty keyword list and the loading flag off.
\<close>

theorem generation_failure_surfaces:
  "generateKeywords (Resolves None) JSON_parse
     = Inl \<lparr>message = Some (js ''No data returned from Gemini.'')\<rparr>
   \<and> generateKeywords (Resolves (Some [])) JSON_parse
     = Inl \<lparr>message = Some (js ''No data returned from Gemini.'')\<rparr>
   \<and> (trim (seedKeyword st) \<noteq> [] \<and> generateKeywords response JSON_parse = Inl err \<longrightarrow>
        error (handleGenerate response JSON_parse st) = Some (message_or_generic err)
        \<and> message_or_generic err \<noteq> []
        \<and> (message err = None \<or> message err = Some [] \<longrightarrow>
             message_or_generic err = generic_message)
        \<and> keywordList (handleGenerate response JSON_parse st) = []
        \<and> \<not> loading (handleGenerate response JSON_parse st))"
  by (auto simp: generateKeywords_def handleGenerate_def handleGenerate_settled_def
      handleGenerate_pending_def message_or_generic_def generic_message_def
      js_def split: option.splits)

theorem generation_failure_surfaces_witness:
  "trim (seedKeyword (initial_app\<lparr>seedKeyword := js ''coffee''\<rparr>)) \<noteq> []
   \<and> generateKeywords (Resolves None) (\<lambda>t. Inr [])
       = Inl \<lparr>message = Some (js ''No data returned from Gemini.'')\<rparr>
   \<and> handleGenerate (Resolves None) (\<lambda>t. Inr []) (initial_app\<lparr>seedKeyword := js ''coffee''\<rparr>)
       = \<lparr>seedKeyword = js ''coffee'', keywordList = [], loading = False,
          error = Some (js ''No data returned from Gemini.''), hasSearched = True\<rparr>
   \<and> error (handleGenerate (Rejects \<lparr>message = None\<rparr>) (\<lambda>t. Inr [])
         (initial_app\<lparr>seedKeyword := js ''coffee''\<rparr>))
       = Some (js ''Failed to generate keywords. Please try again.'')"
  using generation_failure_surfaces [of "\<lambda>t. Inr []" "initial_app\<lparr>seedKeyword := js ''coffee''\<rparr>"
      "Resolves None" "\<lparr>message = Some (js ''No data returned from Gemini.'')\<rparr>"]
    generation_failure_surfaces [of "\<lambda>t. Inr []" "initial_app\<lparr>seedKeyword := js ''coffee''\<rparr>"
      "Rejects \<lparr>message = None\<rparr>" "\<lparr>message = None\<rparr>"]
  by (simp add: initial_app_def trim_def is_space_def generateKeywords_def handleGenerate_def
      handleGenerate_settled_def handleGenerate_pending_def message_or_generic_def
      generic_message_def js_def)

subsection \<open>Results table\<close>

text \<open>
  C7: a click on the header of the active sort field toggles the direction and keeps
  the field (so two clicks restore the state); a click on another header makes it the
  sort field and sets the direction to descending. Nothing else changes.
\<close>

theorem handleSort_toggle_or_reset:
  "(field = sortField st \<longrightarrow>
      handleSort field st
        = st\<lparr>sortDirection := (case sortDirection st of asc \<Rightarrow> desc | desc \<Rightarrow> asc)\<rparr>
      \<and> sortField (handleSort field st) = sortField st
      \<and> handleSort field (handleSort field st) = st)
   \<and> (field \<noteq> sortField st \<longrightarrow>
      handleSort field st = st\<lparr>sortField := field, sortDirection := desc\<rparr>)"
  by (cases "sortDirection st") (simp_all add: handleSort_def)

theorem handleSort_toggle_or_reset_witness:
  "sortDirection (handleSort PriorityScore initial_table) = asc
   \<and> sortField (handleSort PriorityScore initial_table) = PriorityScore
   \<and> handleSort PriorityScore (handleSort PriorityScore initial_table) = initial_table
   \<and> sortField (handleSort Keyword (handleSort PriorityScore initial_table)) = Keyword
   \<and> sortDirection (handleSort Keyword (handleSort PriorityScore initial_table)) = desc"
  using handleSort_toggle_or_reset [of PriorityScore initial_table]
    handleSort_toggle_or_reset [of Keyword "handleSort PriorityScore initial_table"]
  by (simp add: initial_table_def handleSort_def)

subsection \<open>Filter\<close>

lemma startsWith_iff: "startsWith s t = (\<exists>suf. s = t @ suf)"
  by (induction s t rule: startsWith.induct) auto

lemma String_includes_iff: "String_includes s t = (\<exists>pre suf. s = pre @ t @ suf)"
proof (induction s)
  case Nil
  then show ?case by simp
next
  case (Cons c s)
  show ?case
  proof
    assume "String_includes (c # s) t"
    then consider "startsWith (c # s) t" | "String_includes s t" by auto
    then show "\<exists>pre suf. c # s = pre @ t @ suf"
    proof cases
      case 1
      then obtain suf where "c # s = t @ suf" by (auto simp: startsWith_iff)
      then have "c # s = [] @ t @ suf" by simp
      then show ?thesis by blast
    next
      case 2
      then obtain pre suf where "s = pre @ t @ suf" using Cons.IH by auto
      then have "c # s = (c # pre) @ t @ suf" by simp
      then show ?thesis by blast
    qed
  next
    assume "\<exists>pre suf. c # s = pre @ t @ suf"
    then obtain pre suf where eq: "c # s = pre @ t @ suf" by auto
    show "String_includes (c # s) t"
    proof (cases pre)
      case Nil
      with eq have "startsWith (c # s) t" by (auto simp: startsWith_iff)
      then show ?thesis by simp
    next
      case (Cons p pre')
      with eq have "s = pre' @ t @ suf" by simp
      then have "String_includes s t" using Cons.IH by auto
      then show ?thesis by simp
    qed
  qed
qed

lemma same_ignoring_case_iff: "same_ignoring_case f u t = (map f u = map f t)"
  unfolding same_ignoring_case_def
  by (induction u arbitrary: t) (auto simp: list_all2_Cons1)

lemma includes_map_iff:
  "String_includes (map f k) (map f t) = contains_ignoring_case f k t"
proof
  assume "String_includes (map f k) (map f t)"
  then obtain p r where "map f k = p @ map f t @ r"
    by (auto simp: String_includes_iff)
  then obtain pre rest where k1: "k = pre @ rest" and "map f rest = map f t @ r"
    by (metis map_eq_append_conv)
  then obtain u suf where "rest = u @ suf" and "map f u = map f t"
    by (metis map_eq_append_conv)
  with k1 show "contains_ignoring_case f k t"
    unfolding contains_ignoring_case_def same_ignoring_case_iff by blast
next
  assume "contains_ignoring_case f k t"
  then obtain pre u suf where "k = pre @ u @ suf" and "map f u = map f t"
    by (auto simp: contains_ignoring_case_def same_ignoring_case_iff)
  then have "map f k = map f pre @ map f t @ map f suf"
    by simp
  then show "String_includes (map f k) (map f t)"
    unfolding String_includes_iff by blast
qed

lemma includes_lowered_iff:
  "String_includes (toLowerCase k) (toLowerCase t) = contains_lowered toLowerCase k t"
  by (simp add: String_includes_iff contains_lowered_def)

lemma filteredData_filter:
  "filteredData toLowerCase data st
     = filter (passes_filter toLowerCase (searchTerm st) (filterIntent st)) data"
  by (auto simp: filteredData_def passes_filter_def includes_lowered_iff Let_def
      intro!: filter_cong)

text \<open>
  C2, as amended: the filtered view is the list of exactly those entries, in their
  order, for which the lower-case form of the keyword (the whole keyword converted by
  \<^verbatim>\<open>toLowerCase\<close>) contains the lower-case form of the search term as a contiguous part,
  and whose intent equals the intent filter, the intent test being skipped for the
  filter \<^verbatim>\<open>All\<close>; with the filter \<^verbatim>\<open>Commercial\<close> every entry kept has the intent
  \<^verbatim>\<open>Commercial\<close>. Where the conversion of the search term and of every keyword works code
  unit by code unit, these are exactly the entries whose keyword contains the search
  term ignoring case.
\<close>

theorem filteredData_keeps_exactly:
  "filteredData toLowerCase data st
     = filter (passes_filter toLowerCase (searchTerm st) (filterIntent st)) data
   \<and> (\<forall>e \<in> set (filteredData toLowerCase data (st\<lparr>filterIntent := js ''Commercial''\<rparr>)).
        searchIntent e = js ''Commercial'')
   \<and> (toLowerCase (searchTerm st) = map f (searchTerm st)
        \<and> (\<forall>e \<in> set data. toLowerCase (keyword e) = map f (keyword e)) \<longrightarrow>
      filteredData toLowerCase data st
        = filter (passes_filter_ignoring_case f (searchTerm st) (filterIntent st)) data)"
proof -
  have ne: "js ''Commercial'' \<noteq> js ''All''"
    by (simp add: js_def)
  have 2: "\<forall>e \<in> set (filteredData toLowerCase data (st\<lparr>filterIntent := js ''Commercial''\<rparr>)).
        searchIntent e = js ''Commercial''"
    using ne by (auto simp: filteredData_def Let_def)
  have 3: "filteredData toLowerCase data st
        = filter (passes_filter_ignoring_case f (searchTerm st) (filterIntent st)) data"
    if t: "toLowerCase (searchTerm st) = map f (searchTerm st)"
      and k: "\<forall>e \<in> set data. toLowerCase (keyword e) = map f (keyword e)"
  proof -
    have "String_includes (toLowerCase (keyword e)) (toLowerCase (searchTerm st))
        = contains_ignoring_case f (keyword e) (searchTerm st)" if "e \<in> set data" for e
      using that t k by (simp add: includes_map_iff)
    then show ?thesis
      by (auto simp: filteredData_def passes_filter_ignoring_case_def Let_def intro!: filter_cong)
  qed
  from filteredData_filter 2 3 show ?thesis
    by blast
qed

theorem filteredData_keeps_exactly_witness:
  "filter (passes_filter lower_sample (js ''COFFEE'') (js ''Commercial''))
       [ex_buy, ex_best, ex_tea] = [ex_best]
   \<and> filter (passes_filter lower_sample (js ''COFFEE'') (js ''All''))
       [ex_buy, ex_best, ex_tea] = [ex_buy, ex_best]
   \<and> searchIntent ex_best = js ''Commercial''
   \<and> lower_sample (js ''COFFEE'') = map lower_unit (js ''COFFEE'')
   \<and> lower_sample (keyword ex_buy) = map lower_unit (keyword ex_buy)
   \<and> filter (passes_filter_ignoring_case lower_unit (js ''COFFEE'') (js ''All''))
       [ex_buy, ex_best, ex_tea] = [ex_buy, ex_best]"
proof -
  let ?st = "\<lparr>searchTerm = js ''COFFEE'', sortField = PriorityScore, sortDirection = desc,
               filterIntent = js ''Commercial''\<rparr>"
  let ?data = "[ex_buy, ex_best, ex_tea]"
  have a: "filteredData lower_sample ?data ?st = [ex_best]"
    by code_simp
  have b: "filteredData lower_sample ?data (?st\<lparr>filterIntent := js ''All''\<rparr>) = [ex_buy, ex_best]"
    by code_simp
  have c: "searchIntent ex_best = js ''Commercial''"
    by (simp add: ex_best_def)
  have lt: "lower_sample (js ''COFFEE'') = map lower_unit (js ''COFFEE'')"
    by code_simp
  have lk: "\<forall>e \<in> set ?data. lower_sample (keyword e) = map lower_unit (keyword e)"
    by code_simp
  note t1 = filteredData_keeps_exactly [of lower_sample ?data ?st lower_unit]
  note t2 = filteredData_keeps_exactly
              [of lower_sample ?data "?st\<lparr>filterIntent := js ''All''\<rparr>" lower_unit]
  have f1: "filter (passes_filter lower_sample (js ''COFFEE'') (js ''Commercial'')) ?data
              = [ex_best]"
    using trans [OF t1 [THEN conjunct1, symmetric] a]
    by (simp only: TableState.select_convs)
  have f2: "filter (passes_filter lower_sample (js ''COFFEE'') (js ''All'')) ?data
              = [ex_buy, ex_best]"
    using trans [OF t2 [THEN conjunct1, symmetric] b]
    by (simp only: TableState.select_convs TableState.update_convs)
  from t2 have imp: "lower_sample (searchTerm (?st\<lparr>filterIntent := js ''All''\<rparr>))
        = map lower_unit (searchTerm (?st\<lparr>filterIntent := js ''All''\<rparr>))
      \<and> (\<forall>e \<in> set ?data. lower_sample (keyword e) = map lower_unit (keyword e)) \<longrightarrow>
      filteredData lower_sample ?data (?st\<lparr>filterIntent := js ''All''\<rparr>)
        = filter (passes_filter_ignoring_case lower_unit
            (searchTerm (?st\<lparr>filterIntent := js ''All''\<rparr>))
            (filterIntent (?st\<lparr>filterIntent := js ''All''\<rparr>))) ?data"
    by blast
  have "searchTerm (?st\<lparr>filterIntent := js ''All''\<rparr>) = js ''COFFEE''"
    and "filterIntent (?st\<lparr>filterIntent := js ''All''\<rparr>) = js ''All''"
    by simp_all
  with imp lt lk b
  have f3: "filter (passes_filter_ignoring_case lower_unit (js ''COFFEE'') (js ''All'')) ?data
      = [ex_buy, ex_best]"
    by (simp only: simp_thms)
  from lk have lb: "lower_sample (keyword ex_buy) = map lower_unit (keyword ex_buy)"
    by simp
  from f1 f2 c lt lb f3 show ?thesis
    by blast
qed

text \<open>
  Containing the search term ignoring case is not enough: the keyword of four Greek
  capitals ends in the capital sigma and so contains the search term, a capital sigma,
  as it stands; its lower-case form ends in the final small sigma, the lower-case form
  of the search term is the small sigma, and the entry is dropped.
\<close>

theorem filteredData_keeps_exactly_counterexample:
  "keyword ex_odos = [0x39F, 0x394, 0x39F] @ [0x3A3] @ []
   \<and> passes_filter_ignoring_case lower_unit [0x3A3] (js ''All'') ex_odos
   \<and> lower_sample (keyword ex_odos) = [0x3BF, 0x3B4, 0x3BF, 0x3C2]
   \<and> lower_sample [0x3A3] = [0x3C3]
   \<and> filteredData lower_sample [ex_odos] (initial_table\<lparr>searchTerm := [0x3A3]\<rparr>) = []"
proof -
  have k: "keyword ex_odos = [0x39F, 0x394, 0x39F] @ [0x3A3] @ []"
    by (simp add: ex_odos_def)
  have "same_ignoring_case lower_unit [0x3A3] [0x3A3]"
    by (simp add: same_ignoring_case_def)
  with k have "contains_ignoring_case lower_unit (keyword ex_odos) [0x3A3]"
    unfolding contains_ignoring_case_def by blast
  then have p: "passes_filter_ignoring_case lower_unit [0x3A3] (js ''All'') ex_odos"
    by (simp add: passes_filter_ignoring_case_def)
  have l1: "lower_sample (keyword ex_odos) = [0x3BF, 0x3B4, 0x3BF, 0x3C2]"
    by code_simp
  have l2: "lower_sample [0x3A3] = [0x3C3]"
    by code_simp
  have f: "filteredData lower_sample [ex_odos] (initial_table\<lparr>searchTerm := [0x3A3]\<rparr>) = []"
    by code_simp
  from k p l1 l2 f show ?thesis
    by blast
qed

subsection \<open>Sort\<close>


lemma insert_by_insort_key:
  "\<forall>y \<in> set ys. (cmp x y \<le> 0) = (key x \<le> key y)
   \<Longrightarrow> insert_by cmp x ys = insort_key key x ys"
  by (induction ys) auto

lemma Array_sort_sort_key:
  "\<forall>x \<in> set xs. \<forall>y \<in> set xs. (cmp x y \<le> 0) = (key x \<le> key y)
   \<Longrightarrow> Array_sort cmp xs = sort_key key xs"
proof (induction xs)
  case Nil
  then show ?case by (simp add: Array_sort_def)
next
  case (Cons x xs)
  then have IH: "Array_sort cmp xs = sort_key key xs" by simp
  have "Array_sort cmp (x # xs) = insert_by cmp x (Array_sort cmp xs)"
    by (simp add: Array_sort_def)
  also have "\<dots> = insert_by cmp x (sort_key key xs)"
    by (simp add: IH)
  also have "\<dots> = insort_key key x (sort_key key xs)"
    using Cons.prems by (intro insert_by_insort_key) simp
  finally show ?case by simp
qed









subsection \<open>CSV export\<close>




subsection \<open>Statistics aggregator\<close>

lemma forEach_count_foldl:
  "forEach_count ks (ic, tc, acc)
     = (foldl bump ic (map searchIntent ks), foldl bump tc (map keywordType ks),
        acc + sum_list (map priorityScore ks))"
  by (induction ks arbitrary: ic tc acc) (simp_all add: add.assoc)

lemma keys_bump:
  "map fst (bump obj k)
     = (if k \<in> set (map fst obj) \<or> k = js ''__proto__'' then map fst obj else map fst obj @ [k])"
proof -
  have "map fst (map (\<lambda>p. if fst p = k then (k, v) else p) obj) = map fst obj" for v
    by (induction obj) auto
  then show ?thesis
    by (auto simp: bump_def js_set_def)
qed

lemma keys_foldl_bump:
  "map fst (foldl bump obj ns)
     = map fst obj
       @ filter (\<lambda>k. k \<notin> set (map fst obj)) (first_seen (filter (\<lambda>k. k \<noteq> js ''__proto__'') ns))"
proof (induction ns arbitrary: obj)
  case Nil
  then show ?case by simp
next
  case (Cons n ns)
  let ?fs = "first_seen (filter (\<lambda>k. k \<noteq> js ''__proto__'') ns)"
  have IH: "map fst (foldl bump (bump obj n) ns)
      = map fst (bump obj n) @ filter (\<lambda>k. k \<notin> set (map fst (bump obj n))) ?fs"
    by (rule Cons.IH)
  consider (proto) "n = js ''__proto__''" "n \<notin> set (map fst obj)"
    | (old) "n \<in> set (map fst obj)"
    | (new) "n \<noteq> js ''__proto__''" "n \<notin> set (map fst obj)"
    by blast
  then show ?case
  proof cases
    case proto
    then show ?thesis using IH by (simp add: keys_bump)
  next
    case old
    then have "filter (\<lambda>k. k \<notin> set (map fst obj)) (filter (\<lambda>y. y \<noteq> n) ?fs)
        = filter (\<lambda>k. k \<notin> set (map fst obj)) ?fs"
      by (auto intro!: filter_cong)
    with old show ?thesis using IH by (auto simp: keys_bump)
  next
    case new
    have "filter (\<lambda>k. k \<notin> set (map fst obj @ [n])) ?fs
        = filter (\<lambda>k. k \<notin> set (map fst obj)) (filter (\<lambda>y. y \<noteq> n) ?fs)"
      by (auto intro!: filter_cong)
    with new show ?thesis using IH by (simp add: keys_bump)
  qed
qed

lemma keys_count_all:
  "map fst (foldl bump [] ns) = first_seen (filter (\<lambda>k. k \<noteq> js ''__proto__'') ns)"
  using keys_foldl_bump [of "[]" ns] by simp

lemma map_fst_insort_key:
  "map fst (insort_key (\<lambda>q. g (fst q)) p ps) = insort_key g (fst p) (map fst ps)"
  by (induction ps) auto

lemma map_fst_sort_key:
  "map fst (sort_key (\<lambda>q. g (fst q)) ps) = sort_key g (map fst ps)"
  by (induction ps) (simp_all add: map_fst_insort_key)

lemma names_Object_entries:
  "map name (to_dist (Object_entries obj)) = indices_then_rest (map fst obj)"
proof -
  have "map name (to_dist es) = map fst es" for es
    by (induction es) (auto simp: to_dist_def)
  moreover have "map fst (filter (is_array_index \<circ> fst) obj) = filter is_array_index (map fst obj)"
    by (simp add: filter_map comp_def)
  moreover have "map fst (filter (\<lambda>p. \<not> is_array_index (fst p)) obj)
      = filter (\<lambda>c. \<not> is_array_index c) (map fst obj)"
    by (simp add: filter_map comp_def)
  ultimately show ?thesis
    by (simp add: Object_entries_def indices_then_rest_def map_fst_sort_key comp_def)
qed

lemma stats_distributions:
  assumes "stats kws = Some s"
  shows "intentDistribution s = to_dist (Object_entries (foldl bump [] (map searchIntent kws)))"
    and "typeDistribution s = to_dist (Object_entries (foldl bump [] (map keywordType kws)))"
    and "totalKeywords s = length kws"
  using assms
  by (auto simp: stats_def forEach_count_foldl split: if_splits)

lemma indices_then_rest_plain:
  "\<forall>c \<in> set cats. \<not> is_array_index c \<Longrightarrow> indices_then_rest cats = cats"
  by (simp add: indices_then_rest_def filter_empty_conv)

text \<open>
  C8, as amended: the aggregator applies no sort of its own, and the distribution
  sequences list the categories in the key order of the counting object, which is: the
  categories that are array-index strings first, in ascending numeric order, then every
  other category in first-seen order over the input entries. When no category is an
  array-index string (as for all declared intent and type values) the order is the
  first-seen order. The statement is for inputs without the category \<^verbatim>\<open>__proto__\<close>, which
  the counting object never lists.
\<close>

theorem distribution_order:
  assumes "stats kws = Some s"
    and "js ''__proto__'' \<notin> set (map searchIntent kws)"
    and "js ''__proto__'' \<notin> set (map keywordType kws)"
  shows "map name (intentDistribution s) = indices_then_rest (first_seen (map searchIntent kws))
    \<and> map name (typeDistribution s) = indices_then_rest (first_seen (map keywordType kws))
    \<and> ((\<forall>c \<in> set (map searchIntent kws). \<not> is_array_index c) \<longrightarrow>
         map name (intentDistribution s) = first_seen (map searchIntent kws))
    \<and> ((\<forall>c \<in> set (map keywordType kws). \<not> is_array_index c) \<longrightarrow>
         map name (typeDistribution s) = first_seen (map keywordType kws))"
proof -
  have set_fs: "set (first_seen xs) = set xs" for xs :: "jsstring list"
    by (induction xs) auto
  have nf: "filter (\<lambda>k. k \<noteq> js ''__proto__'') ns = ns" if "js ''__proto__'' \<notin> set ns" for ns
    using that by (induction ns) auto
  have i: "map name (intentDistribution s) = indices_then_rest (first_seen (map searchIntent kws))"
    by (simp only: stats_distributions(1) [OF assms(1)] names_Object_entries keys_count_all
        nf [OF assms(2)])
  have t: "map name (typeDistribution s) = indices_then_rest (first_seen (map keywordType kws))"
    by (simp only: stats_distributions(2) [OF assms(1)] names_Object_entries keys_count_all
        nf [OF assms(3)])
  from i t show ?thesis
    by (auto simp: indices_then_rest_plain set_fs)
qed

text \<open>
  First-seen order fails for the intents \<^verbatim>\<open>"2"\<close>, \<^verbatim>\<open>"1"\<close>: the distribution lists
  \<^verbatim>\<open>"1"\<close> before \<^verbatim>\<open>"2"\<close>.
\<close>

theorem distribution_order_counterexample:
  "stats [ex_entry ''2'' ''Question'' 40, ex_entry ''1'' ''Question'' 40]
     = Some \<lparr>totalKeywords = 2, avgPriority = 40,
             intentDistribution =
               [\<lparr>name = js ''1'', val = Count 1\<rparr>, \<lparr>name = js ''2'', val = Count 1\<rparr>],
             typeDistribution = [\<lparr>name = js ''Question'', val = Count 2\<rparr>]\<rparr>
   \<and> first_seen (map searchIntent [ex_entry ''2'' ''Question'' 40, ex_entry ''1'' ''Question'' 40])
     = [js ''2'', js ''1'']
   \<and> map name (intentDistribution (the (stats
         [ex_entry ''2'' ''Question'' 40, ex_entry ''1'' ''Question'' 40])))
     \<noteq> first_seen (map searchIntent
         [ex_entry ''2'' ''Question'' 40, ex_entry ''1'' ''Question'' 40])"
  by code_simp

theorem distribution_order_witness:
  "stats [ex_entry ''Commercial'' ''Question'' 40, ex_entry ''2'' ''Question'' 40,
          ex_entry ''1'' ''Long Tail'' 40]
     = Some \<lparr>totalKeywords = 3, avgPriority = 40,
             intentDistribution =
               [\<lparr>name = js ''1'', val = Count 1\<rparr>, \<lparr>name = js ''2'', val = Count 1\<rparr>,
                \<lparr>name = js ''Commercial'', val = Count 1\<rparr>],
             typeDistribution =
               [\<lparr>name = js ''Question'', val = Count 2\<rparr>, \<lparr>name = js ''Long Tail'', val = Count 1\<rparr>]\<rparr>
   \<and> indices_then_rest (first_seen [js ''Commercial'', js ''2'', js ''1'']) = [js ''1'', js ''2'', js ''Commercial'']
   \<and> map name (intentDistribution (the (stats [ex_buy, ex_best, ex_tea, ex_buy])))
     = [js ''Transactional'', js ''Commercial'']
   \<and> map name (typeDistribution (the (stats [ex_buy, ex_best, ex_tea, ex_buy])))
     = [js ''Commercial'', js ''Long Tail'', js ''Question'']"
proof -
  let ?K1 = "[ex_entry ''Commercial'' ''Question'' 40, ex_entry ''2'' ''Question'' 40,
          ex_entry ''1'' ''Long Tail'' 40]"
  let ?S1 = "\<lparr>totalKeywords = 3, avgPriority = 40,
             intentDistribution =
               [\<lparr>name = js ''1'', val = Count 1\<rparr>, \<lparr>name = js ''2'', val = Count 1\<rparr>,
                \<lparr>name = js ''Commercial'', val = Count 1\<rparr>],
             typeDistribution =
               [\<lparr>name = js ''Question'', val = Count 2\<rparr>, \<lparr>name = js ''Long Tail'', val = Count 1\<rparr>]\<rparr>"
  let ?K2 = "[ex_buy, ex_best, ex_tea, ex_buy]"
  have s1: "stats ?K1 = Some ?S1"
    by code_simp
  have p1: "js ''__proto__'' \<notin> set (map searchIntent ?K1)" "js ''__proto__'' \<notin> set (map keywordType ?K1)"
    by (simp_all add: ex_entry_def js_def)
  note t1 = distribution_order [OF s1 p1]
  have m1: "map searchIntent ?K1 = [js ''Commercial'', js ''2'', js ''1'']"
    by (simp add: ex_entry_def)
  have n1: "map name (intentDistribution ?S1) = [js ''1'', js ''2'', js ''Commercial'']"
    by simp
  from t1 have "map name (intentDistribution ?S1)
      = indices_then_rest (first_seen (map searchIntent ?K1))"
    by blast
  then have e1: "indices_then_rest (first_seen [js ''Commercial'', js ''2'', js ''1''])
      = [js ''1'', js ''2'', js ''Commercial'']"
    unfolding m1 n1 by simp
  obtain S2 where s2: "stats ?K2 = Some S2"
    by (cases "stats ?K2") (simp_all add: stats_def split: prod.splits)
  have p2: "js ''__proto__'' \<notin> set (map searchIntent ?K2)" "js ''__proto__'' \<notin> set (map keywordType ?K2)"
    by (simp_all add: ex_buy_def ex_best_def ex_tea_def js_def)
  note t2 = distribution_order [OF s2 p2]
  have q2: "\<forall>c \<in> set (map searchIntent ?K2). \<not> is_array_index c"
    "\<forall>c \<in> set (map keywordType ?K2). \<not> is_array_index c"
    by code_simp+
  have f2: "first_seen (map searchIntent ?K2) = [js ''Transactional'', js ''Commercial'']"
    "first_seen (map keywordType ?K2) = [js ''Commercial'', js ''Long Tail'', js ''Question'']"
    by code_simp+
  from t2 q2 have a2: "map name (intentDistribution S2) = first_seen (map searchIntent ?K2)"
    by blast
  from t2 q2 have b2: "map name (typeDistribution S2) = first_seen (map keywordType ?K2)"
    by blast
  have e2: "map name (intentDistribution (the (stats ?K2))) = [js ''Transactional'', js ''Commercial'']"
    unfolding s2 option.sel by (rule trans [OF a2 f2(1)])
  have e3: "map name (typeDistribution (the (stats ?K2)))
      = [js ''Commercial'', js ''Long Tail'', js ''Question'']"
    unfolding s2 option.sel by (rule trans [OF b2 f2(2)])
  from s1 e1 e2 e3 show ?thesis
    by blast
qed

subsection \<open>Statistics aggregator: totals\<close>

text \<open>
  The counts of a distribution are numbers and sum to the number of entries whenever no
  category bears the name of a property of \<^verbatim>\<open>Object.prototype\<close>.
\<close>

lemma proto_inherited: "js ''__proto__'' \<in> set Object_prototype_keys"
  by (simp add: Object_prototype_keys_def)

lemma bump_new:
  assumes "k \<notin> set Object_prototype_keys" "map_of obj k = None"
  shows "bump obj k = obj @ [(k, Count 1)]"
proof -
  from assms(2) have "k \<notin> fst ` set obj" by (simp add: map_of_eq_None_iff)
  moreover from assms(1) have "k \<noteq> js ''__proto__''" using proto_inherited by auto
  ultimately show ?thesis using assms by (simp add: bump_def js_get_def js_set_def)
qed

lemma bump_old:
  assumes "map_of obj k = Some v"
  shows "bump obj k
     = map (\<lambda>p. if fst p = k then (k, or_zero_plus_one (Own v)) else p) obj"
proof -
  from assms have "k \<in> fst ` set obj" by (metis map_of_eq_None_iff option.distinct(1))
  then show ?thesis using assms by (simp add: bump_def js_get_def js_set_def)
qed

lemma sum_update_one:
  assumes "distinct (map fst obj)" "map_of obj k = Some (Count n)"
  shows "sum_list (map (\<lambda>p. count_of (snd p))
           (map (\<lambda>p. if fst p = k then (k, Count (n + 1)) else p) obj))
         = sum_list (map (\<lambda>p. count_of (snd p)) obj) + 1"
  using assms
proof (induction obj)
  case Nil
  then show ?case by simp
next
  case (Cons p obj)
  show ?case
  proof (cases "fst p = k")
    case True
    with Cons.prems have "snd p = Count n" by simp
    moreover from True Cons.prems have "k \<notin> fst ` set obj" by auto
    then have "map (\<lambda>p. if fst p = k then (k, Count (n + 1)) else p) obj = obj"
      by (induction obj) auto
    ultimately show ?thesis using True by simp
  next
    case False
    with Cons.prems have "map_of obj k = Some (Count n)" by simp
    with Cons show ?thesis using False by simp
  qed
qed

lemma bump_counts:
  assumes "k \<notin> set Object_prototype_keys" "distinct (map fst obj)"
    and "\<forall>p \<in> set obj. is_count (snd p)"
  shows "distinct (map fst (bump obj k))"
    and "\<forall>p \<in> set (bump obj k). is_count (snd p)"
    and "sum_list (map (\<lambda>p. count_of (snd p)) (bump obj k))
           = sum_list (map (\<lambda>p. count_of (snd p)) obj) + 1"
proof -
  show "distinct (map fst (bump obj k))"
    using assms(2) by (simp add: keys_bump)
  show "\<forall>p \<in> set (bump obj k). is_count (snd p)"
  proof (cases "map_of obj k")
    case None
    with assms show ?thesis by (simp add: bump_new is_count_def)
  next
    case (Some v)
    then have "(k, v) \<in> set obj" by (rule map_of_SomeD)
    with assms(3) obtain n where "v = Count n"
      by (cases v) (auto simp: is_count_def)
    with Some assms(3) show ?thesis by (auto simp: bump_old is_count_def)
  qed
  show "sum_list (map (\<lambda>p. count_of (snd p)) (bump obj k))
           = sum_list (map (\<lambda>p. count_of (snd p)) obj) + 1"
  proof (cases "map_of obj k")
    case None
    with assms show ?thesis by (simp add: bump_new)
  next
    case (Some v)
    then have "(k, v) \<in> set obj" by (rule map_of_SomeD)
    with assms(3) obtain n where v: "v = Count n"
      by (cases v) (auto simp: is_count_def)
    from Some v have "bump obj k = map (\<lambda>p. if fst p = k then (k, Count (n + 1)) else p) obj"
      by (simp add: bump_old)
    then show ?thesis using sum_update_one [OF assms(2)] Some v by simp
  qed
qed

lemma foldl_bump_counts:
  assumes "set ns \<inter> set Object_prototype_keys = {}" "distinct (map fst obj)"
    and "\<forall>p \<in> set obj. is_count (snd p)"
  shows "distinct (map fst (foldl bump obj ns))
    \<and> (\<forall>p \<in> set (foldl bump obj ns). is_count (snd p))
    \<and> sum_list (map (\<lambda>p. count_of (snd p)) (foldl bump obj ns))
        = sum_list (map (\<lambda>p. count_of (snd p)) obj) + length ns"
  using assms
proof (induction ns arbitrary: obj)
  case Nil
  then show ?case by simp
next
  case (Cons n ns)
  from Cons.prems(1) have n: "n \<notin> set Object_prototype_keys"
    and ns: "set ns \<inter> set Object_prototype_keys = {}"
    by auto
  note b = bump_counts [OF n Cons.prems(2) Cons.prems(3)]
  from Cons.IH [OF ns b(1) b(2)] b(3) show ?case by simp
qed

lemma mset_Object_entries: "mset (Object_entries obj) = mset obj"
  by (simp add: Object_entries_def comp_def)

lemma to_dist_counts:
  "numeric (to_dist (Object_entries obj)) = (\<forall>p \<in> set obj. is_count (snd p))"
  "count_sum (to_dist (Object_entries obj)) = sum_list (map (\<lambda>p. count_of (snd p)) obj)"
proof -
  have "set (Object_entries obj) = set obj"
    using mset_Object_entries [of obj] by (metis set_mset_mset)
  then show "numeric (to_dist (Object_entries obj)) = (\<forall>p \<in> set obj. is_count (snd p))"
    by (auto simp: numeric_def to_dist_def list_all_iff)
  have "count_sum (to_dist es) = sum_list (map (\<lambda>p. count_of (snd p)) es)" for es
    by (induction es) (auto simp: count_sum_def to_dist_def)
  moreover have "sum_list (map f (Object_entries obj)) = sum_list (map f obj)" for f :: "_ \<Rightarrow> nat"
    using mset_Object_entries [of obj] by (metis mset_map sum_mset_sum_list)
  ultimately show "count_sum (to_dist (Object_entries obj))
      = sum_list (map (\<lambda>p. count_of (snd p)) obj)"
    by simp
qed

lemma stats_counts_total:
  assumes "stats kws = Some s"
  shows "totalKeywords s = length kws"
    and "set (map searchIntent kws) \<inter> set Object_prototype_keys = {}
         \<Longrightarrow> numeric (intentDistribution s) \<and> count_sum (intentDistribution s) = totalKeywords s"
    and "set (map keywordType kws) \<inter> set Object_prototype_keys = {}
         \<Longrightarrow> numeric (typeDistribution s) \<and> count_sum (typeDistribution s) = totalKeywords s"
proof -
  note d = stats_distributions [OF assms]
  show "totalKeywords s = length kws" by (rule d(3))
  show "numeric (intentDistribution s) \<and> count_sum (intentDistribution s) = totalKeywords s"
    if "set (map searchIntent kws) \<inter> set Object_prototype_keys = {}"
    using foldl_bump_counts [OF that, of "[]"] by (simp add: d(1) d(3) to_dist_counts)
  show "numeric (typeDistribution s) \<and> count_sum (typeDistribution s) = totalKeywords s"
    if "set (map keywordType kws) \<inter> set Object_prototype_keys = {}"
    using foldl_bump_counts [OF that, of "[]"] by (simp add: d(2) d(3) to_dist_counts)
qed

text \<open>
  C1: the claim asks, for every non-empty list, that the average be the mean rounded
  half up and that the counts of each distribution sum to the number of entries. The
  code at the one-entry list whose intent is \<^verbatim>\<open>__proto__\<close>: one keyword in total, and
  an empty intent distribution, whose counts sum to 0; at two entries with the intent
  \<^verbatim>\<open>constructor\<close> the only value of the intent distribution is a string, not the
  number 2.
\<close>

theorem stats_inherited_key_input:
  "stats [ex_entry ''__proto__'' ''Question'' 50]
     = Some \<lparr>totalKeywords = 1, avgPriority = 50, intentDistribution = [],
             typeDistribution = [\<lparr>name = js ''Question'', val = Count 1\<rparr>]\<rparr>
   \<and> count_sum [] \<noteq> (1 :: nat)
   \<and> stats [ex_entry ''constructor'' ''Question'' 50, ex_entry ''constructor'' ''Question'' 50]
     = Some \<lparr>totalKeywords = 2, avgPriority = 50,
             intentDistribution = [\<lparr>name = js ''constructor'', val = Text (js ''constructor'') 2\<rparr>],
             typeDistribution = [\<lparr>name = js ''Question'', val = Count 2\<rparr>]\<rparr>"
  by code_simp

subsection \<open>Results section\<close>

lemma by_value_desc_key:
  assumes "is_count (val a)" "is_count (val b)"
  shows "(by_value_desc a b \<le> 0) = (- int (count_of (val a)) \<le> - int (count_of (val b)))"
  using assms by (cases "val a"; cases "val b") (auto simp: by_value_desc_def is_count_def)

lemma Array_sort_by_value:
  assumes "numeric es"
  shows "Array_sort by_value_desc es = sort_key (\<lambda>e. - int (count_of (val e))) es"
proof (rule Array_sort_sort_key)
  from assms show "\<forall>x \<in> set es. \<forall>y \<in> set es.
      (by_value_desc x y \<le> 0) = (- int (count_of (val x)) \<le> - int (count_of (val y)))"
    by (auto simp: numeric_def list_all_iff by_value_desc_key)
qed

lemma sorted_by_value:
  assumes "numeric es"
  shows "mset (Array_sort by_value_desc es) = mset es"
    and "sorted (rev (map (\<lambda>e. count_of (val e)) (Array_sort by_value_desc es)))"
proof -
  let ?ys = "sort_key (\<lambda>e. - int (count_of (val e))) es"
  show "mset (Array_sort by_value_desc es) = mset es"
    by (simp add: Array_sort_by_value [OF assms])
  have "sorted (map (\<lambda>e. - int (count_of (val e))) ?ys)" by simp
  then have "sorted_wrt (\<lambda>a b. count_of (val b) \<le> count_of (val a)) ?ys"
    by (simp add: sorted_wrt_map)
  then have "sorted (rev (map (\<lambda>e. count_of (val e)) ?ys))"
    by (simp add: sorted_wrt_map sorted_wrt_rev rev_map [symmetric])
  then show "sorted (rev (map (\<lambda>e. count_of (val e)) (Array_sort by_value_desc es)))"
    by (simp add: Array_sort_by_value [OF assms])
qed

lemma descending_head_max:
  assumes "sorted (rev (map f ys))" "ys \<noteq> []"
  shows "\<forall>y \<in> set ys. (f y :: nat) \<le> f (hd ys)"
proof -
  from assms(2) obtain z zs where ys: "ys = z # zs" by (cases ys) auto
  with assms(1) have "\<forall>y \<in> set zs. f y \<le> f z"
    by (auto simp: sorted_append)
  with ys show ?thesis by auto
qed

text \<open>
  C10, as amended: for a statistics object whose distribution values are numbers,
  rendering the results section sorts both distribution arrays of the object itself by
  descending count, and the Dashboard is given that same object: its arrays hold the
  same entries in descending order of count, whatever the order the aggregator left.
  Each summary card shows the name of the first entry of the sorted array, an entry of
  maximal count, or \<^verbatim>\<open>N/A\<close> when that name is the empty string.
\<close>

theorem render_sorts_in_place:
  assumes "numeric (intentDistribution s)" and "numeric (typeDistribution s)"
  shows "dashboardStats (fst (render_results s)) = snd (render_results s)
    \<and> snd (render_results s)
        = s\<lparr>intentDistribution := Array_sort by_value_desc (intentDistribution s),
            typeDistribution := Array_sort by_value_desc (typeDistribution s)\<rparr>
    \<and> mset (intentDistribution (snd (render_results s))) = mset (intentDistribution s)
    \<and> mset (typeDistribution (snd (render_results s))) = mset (typeDistribution s)
    \<and> sorted (rev (map (\<lambda>e. count_of (val e)) (intentDistribution (snd (render_results s)))))
    \<and> sorted (rev (map (\<lambda>e. count_of (val e)) (typeDistribution (snd (render_results s)))))
    \<and> topIntentCard (fst (render_results s))
        = first_name_or_NA (intentDistribution (snd (render_results s)))
    \<and> dominantTypeCard (fst (render_results s))
        = first_name_or_NA (typeDistribution (snd (render_results s)))
    \<and> (\<forall>e \<in> set (intentDistribution s).
          count_of (val e) \<le> count_of (val (hd (intentDistribution (snd (render_results s)))))
          \<and> hd (intentDistribution (snd (render_results s))) \<in> set (intentDistribution s)
          \<and> first_name_or_NA (intentDistribution (snd (render_results s)))
              = (if name (hd (intentDistribution (snd (render_results s)))) = [] then (js ''N/A'')
                 else name (hd (intentDistribution (snd (render_results s))))))
    \<and> (\<forall>e \<in> set (typeDistribution s).
          count_of (val e) \<le> count_of (val (hd (typeDistribution (snd (render_results s)))))
          \<and> hd (typeDistribution (snd (render_results s))) \<in> set (typeDistribution s)
          \<and> first_name_or_NA (typeDistribution (snd (render_results s)))
              = (if name (hd (typeDistribution (snd (render_results s)))) = [] then (js ''N/A'')
                 else name (hd (typeDistribution (snd (render_results s))))))"
proof -
  let ?i = "Array_sort by_value_desc (intentDistribution s)"
  let ?t = "Array_sort by_value_desc (typeDistribution s)"
  have r: "snd (render_results s) = s\<lparr>intentDistribution := ?i, typeDistribution := ?t\<rparr>"
    and v: "dashboardStats (fst (render_results s)) = snd (render_results s)"
    and ci: "topIntentCard (fst (render_results s)) = first_name_or_NA ?i"
    and ct: "dominantTypeCard (fst (render_results s)) = first_name_or_NA ?t"
    by (simp_all add: render_results_def Let_def)
  have di: "intentDistribution (snd (render_results s)) = ?i"
    and dt: "typeDistribution (snd (render_results s)) = ?t"
    by (simp_all add: r)
  note si = sorted_by_value [OF assms(1)]
  note st = sorted_by_value [OF assms(2)]
  have top: "\<forall>e \<in> set es. count_of (val e) \<le> count_of (val (hd (Array_sort by_value_desc es)))
      \<and> hd (Array_sort by_value_desc es) \<in> set es
      \<and> first_name_or_NA (Array_sort by_value_desc es)
          = (if name (hd (Array_sort by_value_desc es)) = [] then (js ''N/A'')
             else name (hd (Array_sort by_value_desc es)))"
    if n: "numeric es" for es
  proof
    fix e assume e: "e \<in> set es"
    let ?ys = "Array_sort by_value_desc es"
    note sb = sorted_by_value [OF n]
    from sb(1) have set_eq: "set ?ys = set es" by (metis set_mset_mset)
    with e have ne: "?ys \<noteq> []" by auto
    from descending_head_max [OF sb(2) ne] e set_eq
    have 1: "count_of (val e) \<le> count_of (val (hd ?ys))" by auto
    from ne set_eq have 2: "hd ?ys \<in> set es" using hd_in_set by blast
    from ne have 3: "first_name_or_NA ?ys
        = (if name (hd ?ys) = [] then (js ''N/A'') else name (hd ?ys))"
      by (cases ?ys) (auto simp: first_name_or_NA_def)
    from 1 2 3 show "count_of (val e) \<le> count_of (val (hd ?ys)) \<and> hd ?ys \<in> set es
      \<and> first_name_or_NA ?ys = (if name (hd ?ys) = [] then (js ''N/A'') else name (hd ?ys))"
      by blast
  qed
  show ?thesis
    unfolding di dt ci ct v
    using r si st top [OF assms(1)] top [OF assms(2)] by blast
qed

theorem render_sorts_in_place_witness:
  "stats [ex_buy, ex_best, ex_tea]
     = Some \<lparr>totalKeywords = 3, avgPriority = 67,
             intentDistribution =
               [\<lparr>name = js ''Transactional'', val = Count 1\<rparr>,
                \<lparr>name = js ''Commercial'', val = Count 2\<rparr>],
             typeDistribution =
               [\<lparr>name = js ''Commercial'', val = Count 1\<rparr>,
                \<lparr>name = js ''Long Tail'', val = Count 1\<rparr>,
                \<lparr>name = js ''Question'', val = Count 1\<rparr>]\<rparr>
   \<and> numeric [\<lparr>name = js ''Transactional'', val = Count 1\<rparr>, \<lparr>name = js ''Commercial'', val = Count 2\<rparr>]
   \<and> dashboardStats (fst (render_results
        \<lparr>totalKeywords = 3, avgPriority = 67,
         intentDistribution =
           [\<lparr>name = js ''Transactional'', val = Count 1\<rparr>,
            \<lparr>name = js ''Commercial'', val = Count 2\<rparr>],
         typeDistribution =
           [\<lparr>name = js ''Commercial'', val = Count 1\<rparr>,
            \<lparr>name = js ''Long Tail'', val = Count 1\<rparr>,
            \<lparr>name = js ''Question'', val = Count 1\<rparr>]\<rparr>))
     = \<lparr>totalKeywords = 3, avgPriority = 67,
        intentDistribution =
          [\<lparr>name = js ''Commercial'', val = Count 2\<rparr>,
           \<lparr>name = js ''Transactional'', val = Count 1\<rparr>],
        typeDistribution =
          [\<lparr>name = js ''Commercial'', val = Count 1\<rparr>,
           \<lparr>name = js ''Long Tail'', val = Count 1\<rparr>,
           \<lparr>name = js ''Question'', val = Count 1\<rparr>]\<rparr>
   \<and> topIntentCard (fst (render_results
        \<lparr>totalKeywords = 3, avgPriority = 67,
         intentDistribution =
           [\<lparr>name = js ''Transactional'', val = Count 1\<rparr>,
            \<lparr>name = js ''Commercial'', val = Count 2\<rparr>],
         typeDistribution =
           [\<lparr>name = js ''Commercial'', val = Count 1\<rparr>,
            \<lparr>name = js ''Long Tail'', val = Count 1\<rparr>,
            \<lparr>name = js ''Question'', val = Count 1\<rparr>]\<rparr>)) = js ''Commercial''"
proof -
  let ?S = "\<lparr>totalKeywords = 3, avgPriority = 67,
         intentDistribution =
           [\<lparr>name = js ''Transactional'', val = Count 1\<rparr>,
            \<lparr>name = js ''Commercial'', val = Count 2\<rparr>],
         typeDistribution =
           [\<lparr>name = js ''Commercial'', val = Count 1\<rparr>,
            \<lparr>name = js ''Long Tail'', val = Count 1\<rparr>,
            \<lparr>name = js ''Question'', val = Count 1\<rparr>]\<rparr>"
  have s: "stats [ex_buy, ex_best, ex_tea] = Some ?S"
    by code_simp
  have n1: "numeric (intentDistribution ?S)" and n2: "numeric (typeDistribution ?S)"
    by (simp_all add: numeric_def is_count_def)
  note t = render_sorts_in_place [OF n1 n2]
  have ev: "snd (render_results ?S)
      = \<lparr>totalKeywords = 3, avgPriority = 67,
        intentDistribution =
          [\<lparr>name = js ''Commercial'', val = Count 2\<rparr>,
           \<lparr>name = js ''Transactional'', val = Count 1\<rparr>],
        typeDistribution =
          [\<lparr>name = js ''Commercial'', val = Count 1\<rparr>,
           \<lparr>name = js ''Long Tail'', val = Count 1\<rparr>,
           \<lparr>name = js ''Question'', val = Count 1\<rparr>]\<rparr>"
    by code_simp
  from t have d: "dashboardStats (fst (render_results ?S)) = snd (render_results ?S)"
    by blast
  from t have "topIntentCard (fst (render_results ?S))
      = first_name_or_NA (intentDistribution (snd (render_results ?S)))"
    by blast
  then have c: "topIntentCard (fst (render_results ?S)) = js ''Commercial''"
    unfolding ev by (simp add: first_name_or_NA_def js_def)
  from n1 have n: "numeric [\<lparr>name = js ''Transactional'', val = Count 1\<rparr>,
      \<lparr>name = js ''Commercial'', val = Count 2\<rparr>]"
    by simp
  from s n d [unfolded ev] c show ?thesis
    by blast
qed

text \<open>
  A card need not show a category: when the category of maximal count is the empty
  string, the card shows \<^verbatim>\<open>N/A\<close>, which is no category of the distribution.
\<close>

theorem render_sorts_in_place_counterexample:
  "stats [ex_entry ''Commercial'' ''Question'' 50, ex_entry [] ''Question'' 50,
          ex_entry [] ''Question'' 50]
     = Some \<lparr>totalKeywords = 3, avgPriority = 50,
             intentDistribution =
               [\<lparr>name = js ''Commercial'', val = Count 1\<rparr>, \<lparr>name = [], val = Count 2\<rparr>],
             typeDistribution = [\<lparr>name = js ''Question'', val = Count 3\<rparr>]\<rparr>
   \<and> topIntentCard (fst (render_results
        \<lparr>totalKeywords = 3, avgPriority = 50,
         intentDistribution =
           [\<lparr>name = js ''Commercial'', val = Count 1\<rparr>, \<lparr>name = [], val = Count 2\<rparr>],
         typeDistribution = [\<lparr>name = js ''Question'', val = Count 3\<rparr>]\<rparr>)) = js ''N/A''
   \<and> js ''N/A'' \<notin> set [js ''Commercial'', []]"
  by code_simp

end
